theory Spec2Isabelle
  imports Complex_Main "HOL-Library.Char_ord" "HOL-Library.List_Lexorder" "HOL-Library.Sublist"
begin

section \<open>Outcomes of Python calls\<close>

text \<open>
  The embedded file is \<^verbatim>\<open>phy/plot/_vispy_utils.py\<close>. A Python method mutates its
  object and either returns or raises; an exception leaves behind every mutation made
  before it. Both are outcomes that carry the state reached. Python floats are modelled
  as real numbers, except where the setters of the zoom and of its bounds store them:
  there a float is a real number, an infinity or NaN (type \<open>pyfloat\<close>).

  \<open>NonFinite\<close> is not a Python exception. It marks the inputs on which numpy
  arithmetic would go on with \<open>inf\<close> or \<open>nan\<close> (a numpy division by zero); the
  model stops there instead of inventing a real number.
\<close>

datatype error =
  AssertionError | TypeError | IndexError | ZeroDivisionError | AttributeError | NonFinite

datatype ('r, 's) outcome = Returns 'r 's | Raises error 's

fun state_of :: "('r, 's) outcome \<Rightarrow> 's" where
  "state_of (Returns r s) = s"
| "state_of (Raises e s) = s"

fun returned :: "('r, 's) outcome \<Rightarrow> bool" where
  "returned (Returns r s) = True"
| "returned (Raises e s) = False"


section \<open>The pan and zoom transform (class PanZoom)\<close>

type_synonym vec2 = "real \<times> real"

text \<open>
  A value pushed to a program, or held in \<open>_u_zoom\<close>: \<open>zoom * aspect\<close> is a scalar
  when \<open>aspect\<close> is the float \<open>1.0\<close> (no aspect declared) and a 2-vector otherwise.
\<close>

datatype uniform = Scalar real | Vec vec2

fun smul :: "real \<Rightarrow> uniform \<Rightarrow> uniform" where
  "smul z (Scalar a) = Scalar (z * a)"
| "smul z (Vec a) = Vec (z * fst a, z * snd a)"

text \<open>A program is the store of its named uniforms; only the transform writes to it here.\<close>

type_synonym program = "string \<rightharpoonup> uniform"

datatype callback = OnResize | OnMouseWheel | OnMouseMove | OnKeyPress

record canvas =
  size_c :: vec2
  connected :: "callback list"
  updates :: nat

record PanZoom =
  aspect :: "real option"
  pan :: vec2
  zoom :: real
  zmin :: real
  zmax :: real
  zoom_to_pointer :: bool
  n_rows :: int
  canvas :: "canvas option"
  canvas_aspect :: vec2
  width :: real
  height :: real
  u_pan :: vec2
  u_zoom :: uniform
  programs :: "program list"

text \<open>\<open>__init__(aspect=1.0, pan=(0.0, 0.0), zoom=1.0, zmin=1e-5, zmax=1e5)\<close>.\<close>

definition PanZoom_init :: "real option \<Rightarrow> vec2 \<Rightarrow> real \<Rightarrow> real \<Rightarrow> real \<Rightarrow> PanZoom" where
  "PanZoom_init aspect0 pan0 zoom0 zmin0 zmax0 =
     \<lparr> aspect = aspect0, pan = pan0, zoom = zoom0, zmin = zmin0, zmax = zmax0,
       zoom_to_pointer = True, n_rows = 1,
       canvas = None, canvas_aspect = (1, 1), width = 1, height = 1,
       u_pan = pan0, u_zoom = Vec (zoom0, zoom0), programs = [] \<rparr>"

definition is_attached :: "PanZoom \<Rightarrow> bool" where
  "is_attached s = (canvas s \<noteq> None)"

text \<open>The setter of \<open>pan\<close>: stores the value and pushes it to every program.\<close>

definition pan_setter :: "vec2 \<Rightarrow> PanZoom \<Rightarrow> PanZoom" where
  "pan_setter v s =
     (let s1 = s\<lparr>pan := v\<rparr>;
          s2 = s1\<lparr>u_pan := pan s1\<rparr>
      in s2\<lparr>programs := map (\<lambda>p. p(''u_pan'' \<mapsto> Vec (u_pan s2))) (programs s2)\<rparr>)"

text \<open>
  \<open>aspect = 1.0; if self._aspect is not None: aspect = self._canvas_aspect * self._aspect\<close>,
  the three lines shared by the zoom setter, \<open>attach\<close> and \<open>on_mouse_wheel\<close>.
\<close>

definition aspect_value :: "PanZoom \<Rightarrow> uniform" where
  "aspect_value s =
     (case aspect s of
        None \<Rightarrow> Scalar 1
      | Some a \<Rightarrow> Vec (fst (canvas_aspect s) * a, snd (canvas_aspect s) * a))"

text \<open>The setter of \<open>zoom\<close>: \<open>max(min(value, zmax), zmin)\<close>, then the push when attached.\<close>

definition zoom_setter :: "real \<Rightarrow> PanZoom \<Rightarrow> PanZoom" where
  "zoom_setter v s =
     (let s1 = s\<lparr>zoom := max (min v (zmax s)) (zmin s)\<rparr>
      in if \<not> is_attached s1 then s1
         else
           (let s2 = s1\<lparr>u_zoom := smul (zoom s1) (aspect_value s1)\<rparr>
            in s2\<lparr>programs := map (\<lambda>p. p(''u_zoom'' \<mapsto> u_zoom s2)) (programs s2)\<rparr>))"

text \<open>
  The zoom and its two bounds as Python floats, for what the three setters store in
  them: a float is a real number, an infinity or NaN. \<open>lt\<close> and \<open>le\<close> are Python's
  \<open><\<close> and \<open><=\<close>: every comparison with NaN is false. The builtins \<open>min(a, b)\<close>
  and \<open>max(a, b)\<close> keep their first argument unless the second is strictly smaller,
  or strictly greater.
\<close>

datatype pyfloat = Fin real | PosInf | NegInf | NaN

fun lt :: "pyfloat \<Rightarrow> pyfloat \<Rightarrow> bool" where
  "lt (Fin a) (Fin b) = (a < b)"
| "lt (Fin a) PosInf = True"
| "lt NegInf (Fin b) = True"
| "lt NegInf PosInf = True"
| "lt _ _ = False"

fun le :: "pyfloat \<Rightarrow> pyfloat \<Rightarrow> bool" where
  "le NaN _ = False"
| "le _ NaN = False"
| "le a b = (\<not> lt b a)"

definition min_py :: "pyfloat \<Rightarrow> pyfloat \<Rightarrow> pyfloat" where
  "min_py a b = (if lt b a then b else a)"

definition max_py :: "pyfloat \<Rightarrow> pyfloat \<Rightarrow> pyfloat" where
  "max_py a b = (if lt a b then b else a)"

text \<open>
  The fields \<open>_zoom\<close>, \<open>_zmin\<close> and \<open>_zmax\<close> of a transform. The setters of \<open>zmin\<close>
  and \<open>zmax\<close> read and write nothing else. \<open>zoom_setter_f\<close> is the first statement of
  the setter of \<open>zoom\<close>, \<open>self._zoom = max(min(value, self._zmax), self._zmin)\<close>, the
  only one that writes one of the three fields; on numbers it is what \<open>zoom_setter\<close>
  stores (lemma \<open>floats_zoom_setter\<close> below).
\<close>

record zoom_floats =
  zoom_f :: pyfloat
  zmin_f :: pyfloat
  zmax_f :: pyfloat

definition floats :: "PanZoom \<Rightarrow> zoom_floats" where
  "floats s = \<lparr>zoom_f = Fin (zoom s), zmin_f = Fin (zmin s), zmax_f = Fin (zmax s)\<rparr>"


definition zmin_setter :: "pyfloat \<Rightarrow> zoom_floats \<Rightarrow> zoom_floats" where
  "zmin_setter v s = s\<lparr>zmin_f := min_py v (zmax_f s)\<rparr>"

definition zmax_setter :: "pyfloat \<Rightarrow> zoom_floats \<Rightarrow> zoom_floats" where
  "zmax_setter v s = s\<lparr>zmax_f := max_py v (zmin_f s)\<rparr>"

text \<open>A call of one of the two bound setters, and a sequence of such calls.\<close>

datatype bound_call = SetZmin pyfloat | SetZmax pyfloat

fun call_value :: "bound_call \<Rightarrow> pyfloat" where
  "call_value (SetZmin v) = v"
| "call_value (SetZmax v) = v"

fun bound_step :: "bound_call \<Rightarrow> zoom_floats \<Rightarrow> zoom_floats" where
  "bound_step (SetZmin v) s = zmin_setter v s"
| "bound_step (SetZmax v) s = zmax_setter v s"

fun bound_calls :: "bound_call list \<Rightarrow> zoom_floats \<Rightarrow> zoom_floats" where
  "bound_calls [] s = s"
| "bound_calls (c # cs) s = bound_calls cs (bound_step c s)"

text \<open>
  The canvas aspect of \<open>on_resize\<close> and \<open>attach\<close>. \<open>_width\<close> and \<open>_height\<close> are
  Python floats there, so a zero height raises \<open>ZeroDivisionError\<close>.
\<close>

definition set_canvas_aspect :: "PanZoom \<Rightarrow> (unit, PanZoom) outcome" where
  "set_canvas_aspect s =
     (if height s = 0 then Raises ZeroDivisionError s
      else
        (let a = width s / height s
         in Returns ()
              (s\<lparr>canvas_aspect := (if a > 1 then (1 / a, 1) else (1, a / 1))\<rparr>)))"

definition on_resize :: "vec2 \<Rightarrow> PanZoom \<Rightarrow> (unit, PanZoom) outcome" where
  "on_resize sz s =
     (case set_canvas_aspect (s\<lparr>width := fst sz, height := snd sz\<rparr>) of
        Raises e s1 \<Rightarrow> Raises e s1
      | Returns _ s1 \<Rightarrow> Returns () (zoom_setter (zoom s1) s1))"

text \<open>
  \<open>add(programs)\<close>: each program is appended and receives the current \<open>_u_zoom\<close> and
  \<open>_u_pan\<close>. A single program is the one-element list.
\<close>

fun add :: "program list \<Rightarrow> PanZoom \<Rightarrow> PanZoom" where
  "add [] s = s"
| "add (p # ps) s =
     add ps (s\<lparr>programs := programs s @ [p(''u_zoom'' \<mapsto> u_zoom s, ''u_pan'' \<mapsto> Vec (u_pan s))]\<rparr>)"

text \<open>
  \<open>attach(canvas)\<close>: binds the canvas and its size, computes the canvas aspect and
  \<open>_u_zoom\<close>, and connects the four handlers. It writes to no program.
\<close>

definition attach :: "canvas \<Rightarrow> PanZoom \<Rightarrow> (unit, PanZoom) outcome" where
  "attach c s =
     (case set_canvas_aspect
             (s\<lparr>canvas := Some c, width := fst (size_c c), height := snd (size_c c)\<rparr>) of
        Raises e s1 \<Rightarrow> Raises e s1
      | Returns _ s1 \<Rightarrow>
          (let s2 = s1\<lparr>u_zoom := smul (zoom s1) (aspect_value s1)\<rparr>
           in Returns ()
                (s2\<lparr>canvas :=
                      Some (c\<lparr>connected :=
                                connected c @ [OnResize, OnMouseWheel, OnMouseMove, OnKeyPress]\<rparr>)\<rparr>)))"

text \<open>\<open>self._canvas.update()\<close>: a redraw request, an \<open>AttributeError\<close> on \<open>None\<close>.\<close>

definition canvas_update :: "PanZoom \<Rightarrow> (unit, PanZoom) outcome" where
  "canvas_update s =
     (case canvas s of
        None \<Rightarrow> Raises AttributeError s
      | Some c \<Rightarrow> Returns () (s\<lparr>canvas := Some (c\<lparr>updates := Suc (updates c)\<rparr>)\<rparr>))"


text \<open>The setter of \<open>n_rows\<close> stores its value unchecked.\<close>

definition n_rows_setter :: "int \<Rightarrow> PanZoom \<Rightarrow> PanZoom" where
  "n_rows_setter v s = s\<lparr>n_rows := v\<rparr>"

text \<open>
  \<open>_normalize_grid(x_y)\<close>: the pointer position, in pixels, becomes a coordinate in
  the grid cell that holds it. \<open>x0 % 1\<close> on Python floats is \<open>x0 - floor x0\<close>, the
  fractional part. A division by a zero \<open>_width\<close>, \<open>_height\<close> or \<open>_n_rows\<close>
  raises \<open>ZeroDivisionError\<close> when the coordinates are Python numbers, as here; numpy
  numbers would go on with \<open>inf\<close> or \<open>nan\<close>, so the theorems on the handler take
  these three to be non-zero. Nothing is mutated.
\<close>

definition normalize_grid :: "PanZoom \<Rightarrow> vec2 \<Rightarrow> error + vec2" where
  "normalize_grid s x_y =
     (let (x0, y0) = x_y
      in if width s = 0 then Inl ZeroDivisionError
         else
           (let x0 = x0 / width s
            in if height s = 0 then Inl ZeroDivisionError
               else
                 (let y0 = y0 / height s;
                      x0 = x0 * of_int (n_rows s);
                      y0 = y0 * of_int (n_rows s);
                      x0 = frac x0;
                      y0 = frac y0;
                      x0 = - (1 - 2 * x0);
                      y0 = - (1 - 2 * y0)
                  in if n_rows s = 0 then Inl ZeroDivisionError
                     else Inr (x0 / of_int (n_rows s), y0 / of_int (n_rows s)))))"

record wheel_event =
  pos :: vec2
  delta :: vec2

text \<open>
  \<open>on_mouse_wheel(event)\<close>. The new zoom is assigned through the setter, which clamps
  it; the pan correction is computed from \<open>zoom_x_new\<close>, the product before the clamp.
  With no aspect declared, \<open>aspect\<close> is the float \<open>1.0\<close> and \<open>aspect[0]\<close> raises
  \<open>TypeError\<close>, after the zoom was assigned. \<open>zoom_x\<close> and \<open>zoom_x_new\<close> are numpy
  floats once multiplied by \<open>aspect[0]\<close>, so \<open>1. / zoom_x\<close> on zero is numpy's \<open>inf\<close>.
\<close>

definition on_mouse_wheel :: "wheel_event \<Rightarrow> PanZoom \<Rightarrow> (unit, PanZoom) outcome" where
  "on_mouse_wheel ev s =
     (let dx = sgn (snd (delta ev)) * (5 / 100)
      in case normalize_grid s (pos ev) of
           Inl e \<Rightarrow> Raises e s
         | Inr (x0, y0) \<Rightarrow>
             (let pan_x = fst (pan s);
                  pan_y = snd (pan s);
                  zoom_x = zoom s;
                  zoom_y = zoom s;
                  zoom_x_new = zoom_x * exp (25 / 10 * dx);
                  zoom_y_new = zoom_y * exp (25 / 10 * dx);
                  s1 = zoom_setter zoom_x_new s
              in if zoom_to_pointer s1 then
                   (case aspect_value s1 of
                      Scalar _ \<Rightarrow> Raises TypeError s1
                    | Vec a \<Rightarrow>
                        (let zoom_x = zoom_x * fst a;
                             zoom_y = zoom_y * snd a;
                             zoom_x_new = zoom_x_new * fst a;
                             zoom_y_new = zoom_y_new * snd a
                         in if zoom_x = 0 \<or> zoom_x_new = 0 \<or> zoom_y = 0 \<or> zoom_y_new = 0
                            then Raises NonFinite s1
                            else canvas_update
                                   (pan_setter
                                      (pan_x - x0 * (1 / zoom_x - 1 / zoom_x_new),
                                       pan_y + y0 * (1 / zoom_y - 1 / zoom_y_new)) s1)))
                 else canvas_update s1))"


section \<open>The bake pipeline (class _BakeVisual)\<close>

text \<open>
  \<open>_to_bake\<close> is the list of the names marked dirty, \<open>_empty\<close> the flag that gates
  drawing, \<open>_gl_draw_mode\<close> the primitive of the draw call. A subclass adds fields.
\<close>

record visual =
  to_bake :: "string list"
  empty :: bool
  gl_draw_mode :: string

text \<open>
  What one call of \<open>_bake\<close> or \<open>draw\<close> was seen to do, in order:
  \<open>BakeRoutine b\<close> for the call \<open>getattr(self, '_bake_' + b)()\<close> and
  \<open>ProgramDraw m\<close> for \<open>self.program.draw(m)\<close>.
\<close>

datatype call = BakeRoutine string | ProgramDraw string

text \<open>
  A bake routine is a method of the visual: it may change any field, mark names dirty
  and raise. The routines of a class are a table from the dirty name \<open>b\<close> to the method
  \<open>_bake_b\<close>; \<open>hasattr(self, '_bake_' + b)\<close> is \<open>h b \<noteq> None\<close>.
\<close>

type_synonym 'a routine = "'a visual_scheme \<Rightarrow> (unit, 'a visual_scheme) outcome"

type_synonym 'a routines = "string \<rightharpoonup> 'a routine"

definition empty_setter :: "bool \<Rightarrow> 'a visual_scheme \<Rightarrow> 'a visual_scheme" where
  "empty_setter b v = v\<lparr>empty := b\<rparr>"

text \<open>\<open>set_to_bake(*bakes)\<close> appends each name that is not yet in the list.\<close>

fun set_to_bake :: "string list \<Rightarrow> 'a visual_scheme \<Rightarrow> 'a visual_scheme" where
  "set_to_bake [] v = v"
| "set_to_bake (b # bs) v =
     set_to_bake bs (if b \<notin> set (to_bake v) then v\<lparr>to_bake := to_bake v @ [b]\<rparr> else v)"

text \<open>
  The loop of \<open>_bake\<close> over the sorted names, taken once before the first routine runs.
  A name with no routine is passed over; a routine that raises ends the loop.
\<close>

fun bake_each ::
  "'a routines \<Rightarrow> string list \<Rightarrow> 'a visual_scheme \<Rightarrow> call list \<times> (unit, 'a visual_scheme) outcome"
where
  "bake_each h [] v = ([], Returns () v)"
| "bake_each h (b # bs) v =
     (case h b of
        None \<Rightarrow> bake_each h bs v
      | Some f \<Rightarrow>
          (case f v of
             Raises e v1 \<Rightarrow> ([BakeRoutine b], Raises e v1)
           | Returns _ v1 \<Rightarrow>
               (BakeRoutine b # fst (bake_each h bs v1), snd (bake_each h bs v1))))"

text \<open>
  \<open>_bake()\<close>: on an empty visual a bare \<open>return\<close>, the value \<open>None\<close>. Otherwise the
  count is taken, the routines run over \<open>sorted(self._to_bake)\<close>, the list is replaced
  by the empty list after the loop, and \<open>n_bake > 0\<close> is returned.
\<close>

definition bake ::
  "'a routines \<Rightarrow> 'a visual_scheme \<Rightarrow> call list \<times> (bool option, 'a visual_scheme) outcome"
where
  "bake h v =
     (if empty v then ([], Returns None v)
      else
        (let n_bake = length (to_bake v)
         in case bake_each h (sort (to_bake v)) v of
              (cs, Raises e v1) \<Rightarrow> (cs, Raises e v1)
            | (cs, Returns _ v1) \<Rightarrow> (cs, Returns (Some (n_bake > 0)) (v1\<lparr>to_bake := []\<rparr>))))"

text \<open>\<open>draw()\<close>: the bake, then the draw call unless the visual is empty.\<close>

definition draw ::
  "'a routines \<Rightarrow> 'a visual_scheme \<Rightarrow> call list \<times> (unit, 'a visual_scheme) outcome"
where
  "draw h v =
     (case bake h v of
        (cs, Raises e v1) \<Rightarrow> (cs, Raises e v1)
      | (cs, Returns _ v1) \<Rightarrow>
          (if \<not> empty v1 then (cs @ [ProgramDraw (gl_draw_mode v1)], Returns () v1)
           else (cs, Returns () v1)))"

text \<open>
  What a pass is to do, said without the loop: the routines of the names that have one,
  run one after the other, each on the visual as the one before left it, until one
  raises. \<open>run_all\<close> also counts the routines it called.
\<close>

fun routines_of :: "'a routines \<Rightarrow> string list \<Rightarrow> 'a routine list" where
  "routines_of h [] = []"
| "routines_of h (b # bs) =
     (case h b of None \<Rightarrow> routines_of h bs | Some f \<Rightarrow> f # routines_of h bs)"

fun run_all ::
  "'a routine list \<Rightarrow> 'a visual_scheme \<Rightarrow> nat \<times> (unit, 'a visual_scheme) outcome"
where
  "run_all [] v = (0, Returns () v)"
| "run_all (f # fs) v =
     (case f v of
        Raises e v1 \<Rightarrow> (1, Raises e v1)
      | Returns _ v1 \<Rightarrow> (Suc (fst (run_all fs v1)), snd (run_all fs v1)))"

text \<open>The marked names that have a routine, in the order given.\<close>

definition declared :: "'a routines \<Rightarrow> string list \<Rightarrow> string list" where
  "declared h bs = filter (\<lambda>b. h b \<noteq> None) bs"


section \<open>Attribute setters (class BaseSpikeVisual)\<close>

text \<open>
  A numpy array is its shape and its elements in row-major order. The setters receive
  arrays: \<open>_as_array\<close> (in \<^verbatim>\<open>phy/utils/array.py\<close>, not among the sources) returns
  an array argument as it is.
\<close>

record 'a ndarray =
  shape :: "nat list"
  flat :: "'a list"

definition ndim :: "'a ndarray \<Rightarrow> nat" where
  "ndim arr = length (shape arr)"

text \<open>\<open>arr.shape[0]\<close>, an \<open>IndexError\<close> on an array of no dimension.\<close>

definition shape0 :: "'a ndarray \<Rightarrow> error + nat" where
  "shape0 arr = (case shape arr of [] \<Rightarrow> Inl IndexError | n # _ \<Rightarrow> Inr n)"

text \<open>\<open>len(arr)\<close>, a \<open>TypeError\<close> on an array of no dimension.\<close>

definition len :: "'a ndarray \<Rightarrow> error + nat" where
  "len arr = (case shape arr of [] \<Rightarrow> Inl TypeError | n # _ \<Rightarrow> Inr n)"

definition arange :: "nat \<Rightarrow> int ndarray" where
  "arange n = \<lparr>shape = [n], flat = map int [0..<n]\<rparr>"

text \<open>
  \<open>arr[ids]\<close> for an integer array \<open>ids\<close>: the rows of \<open>arr\<close> at the indices, a
  negative index counting from the end, an \<open>IndexError\<close> for an index out of range or
  an array of no dimension.
\<close>

definition getitem :: "'a ndarray \<Rightarrow> int ndarray \<Rightarrow> error + 'a ndarray" where
  "getitem arr ids =
     (case shape arr of
        [] \<Rightarrow> Inl IndexError
      | n # rest \<Rightarrow>
          if list_all (\<lambda>i. - int n \<le> i \<and> i < int n) (flat ids) then
            Inr \<lparr>shape = shape ids @ rest,
                 flat = concat (map (\<lambda>i. take (prod_list rest)
                                          (drop (nat (if i < 0 then i + int n else i) * prod_list rest)
                                             (flat arr)))
                                  (flat ids))\<rparr>
          else Inl IndexError)"

text \<open>
  The fields \<open>_masks\<close> and \<open>_cluster_colors\<close> do not exist before their first
  assignment (\<open>None\<close> here). \<open>n_channels\<close> is read by the setter of \<open>masks\<close> and
  defined by the subclasses only: it is a field the setters never write.
\<close>

record spike_visual = visual +
  n_spikes :: "nat option"
  spike_clusters :: "int ndarray option"
  spike_ids :: "int ndarray option"
  masks :: "real ndarray option"
  cluster_colors :: "real ndarray option"
  n_channels :: nat

text \<open>
  \<open>_set_or_assert_n_spikes(arr)\<close>: sets \<open>n_spikes\<close> from the array when it is \<open>None\<close>,
  then asserts that the array has \<open>n_spikes\<close> rows.
\<close>

definition set_or_assert_n_spikes ::
  "'b ndarray \<Rightarrow> 'a spike_visual_scheme \<Rightarrow> (unit, 'a spike_visual_scheme) outcome"
where
  "set_or_assert_n_spikes arr v =
     (case (if n_spikes v = None then
              (case shape0 arr of
                 Inl e \<Rightarrow> Raises e v
               | Inr n \<Rightarrow> Returns () (v\<lparr>n_spikes := Some n\<rparr>))
            else Returns () v) of
        Raises e v1 \<Rightarrow> Raises e v1
      | Returns _ v1 \<Rightarrow>
          (case shape0 arr of
             Inl e \<Rightarrow> Raises e v1
           | Inr n \<Rightarrow>
               if Some n = n_spikes v1 then Returns () v1 else Raises AssertionError v1))"

definition spike_clusters_setter ::
  "int ndarray \<Rightarrow> 'a spike_visual_scheme \<Rightarrow> (unit, 'a spike_visual_scheme) outcome"
where
  "spike_clusters_setter val v =
     Returns () (set_to_bake [''spikes_clusters''] (v\<lparr>spike_clusters := Some val\<rparr>))"

definition masks_setter ::
  "real ndarray \<Rightarrow> 'a spike_visual_scheme \<Rightarrow> (unit, 'a spike_visual_scheme) outcome"
where
  "masks_setter val v =
     (case set_or_assert_n_spikes val v of
        Raises e v1 \<Rightarrow> Raises e v1
      | Returns _ v1 \<Rightarrow>
          if ndim val \<noteq> 2 then Raises AssertionError v1
          else if (case n_spikes v1 of
                     None \<Rightarrow> True
                   | Some k \<Rightarrow> shape val \<noteq> [k, n_channels v1])
          then Raises AssertionError v1
          else Returns () (set_to_bake [''spikes''] (v1\<lparr>masks := Some val\<rparr>)))"

text \<open>The getter of \<open>spike_ids\<close> stores \<open>np.arange(self.n_spikes)\<close> when the field is \<open>None\<close>.\<close>

definition spike_ids_get ::
  "'a spike_visual_scheme \<Rightarrow> (int ndarray, 'a spike_visual_scheme) outcome"
where
  "spike_ids_get v =
     (case spike_ids v of
        None \<Rightarrow>
          (case n_spikes v of
             None \<Rightarrow> Raises TypeError v
           | Some n \<Rightarrow> Returns (arange n) (v\<lparr>spike_ids := Some (arange n)\<rparr>))
      | Some ids \<Rightarrow> Returns ids v)"

definition spike_ids_setter ::
  "int ndarray \<Rightarrow> 'a spike_visual_scheme \<Rightarrow> (unit, 'a spike_visual_scheme) outcome"
where
  "spike_ids_setter val v =
     (case set_or_assert_n_spikes val v of
        Raises e v1 \<Rightarrow> Raises e v1
      | Returns _ v1 \<Rightarrow> Returns () (set_to_bake [''spikes''] (v1\<lparr>spike_ids := Some val\<rparr>)))"

text \<open>
  \<open>cluster_ids\<close> is \<open>_unique(self.spike_clusters[self.spike_ids])\<close>. \<open>_unique\<close> is in
  \<^verbatim>\<open>phy/utils/array.py\<close>, not among the sources: it is the parameter \<open>unique\<close>.
  Subscripting \<open>None\<close> raises \<open>TypeError\<close>, after the getter of \<open>spike_ids\<close> ran.
\<close>

definition cluster_ids_get ::
  "(int ndarray \<Rightarrow> error + int ndarray) \<Rightarrow> 'a spike_visual_scheme
   \<Rightarrow> (int ndarray, 'a spike_visual_scheme) outcome"
where
  "cluster_ids_get unique v =
     (case spike_ids_get v of
        Raises e v1 \<Rightarrow> Raises e v1
      | Returns ids v1 \<Rightarrow>
          (case spike_clusters v of
             None \<Rightarrow> Raises TypeError v1
           | Some c \<Rightarrow>
               (case getitem c ids of
                  Inl e \<Rightarrow> Raises e v1
                | Inr picked \<Rightarrow>
                    (case unique picked of
                       Inl e \<Rightarrow> Raises e v1
                     | Inr u \<Rightarrow> Returns u v1))))"

definition n_clusters_get ::
  "(int ndarray \<Rightarrow> error + int ndarray) \<Rightarrow> 'a spike_visual_scheme
   \<Rightarrow> (nat, 'a spike_visual_scheme) outcome"
where
  "n_clusters_get unique v =
     (case cluster_ids_get unique v of
        Raises e v1 \<Rightarrow> Raises e v1
      | Returns u v1 \<Rightarrow>
          (case len u of
             Inl e \<Rightarrow> Raises e v1
           | Inr n \<Rightarrow> Returns n v1))"

text \<open>
  The setter of \<open>cluster_colors\<close> assigns the field first, then asserts
  \<open>len(self._cluster_colors) == self.n_clusters\<close>, then marks \<open>color\<close>.
\<close>

definition cluster_colors_setter ::
  "(int ndarray \<Rightarrow> error + int ndarray) \<Rightarrow> real ndarray \<Rightarrow> 'a spike_visual_scheme
   \<Rightarrow> (unit, 'a spike_visual_scheme) outcome"
where
  "cluster_colors_setter unique val v =
     (let v1 = v\<lparr>cluster_colors := Some val\<rparr>
      in case len val of
           Inl e \<Rightarrow> Raises e v1
         | Inr n \<Rightarrow>
             (case n_clusters_get unique v1 of
                Raises e v2 \<Rightarrow> Raises e v2
              | Returns k v2 \<Rightarrow>
                  if n = k then Returns () (set_to_bake [''color''] v2)
                  else Raises AssertionError v2))"

text \<open>
  An instance of the parameter \<open>unique\<close> to run the setter with: the distinct elements,
  sorted, as a one-dimensional array.
\<close>

definition sorted_unique :: "int ndarray \<Rightarrow> error + int ndarray" where
  "sorted_unique arr =
     Inr \<lparr>shape = [length (remdups (flat arr))], flat = sort (remdups (flat arr))\<rparr>"


section \<open>Inputs of the runs\<close>

text \<open>
  Two canvases, of 4 by 4 and of 800 by 400 pixels, and three transforms to run the
  handlers on, each attached to the square canvas, with the constructor's default
  bounds unless said: \<open>plain\<close> as constructed, \<open>grid2\<close> with two grid rows,
  \<open>at_zmax\<close> constructed with \<open>zoom = zmax = 10\<close>.
\<close>

definition square_canvas :: canvas where
  "square_canvas = \<lparr>size_c = (4, 4), connected = [], updates = 0\<rparr>"


definition plain :: PanZoom where
  "plain = state_of (attach square_canvas (PanZoom_init (Some 1) (0, 0) 1 (1 / 100000) 100000))"

definition grid2 :: PanZoom where
  "grid2 = n_rows_setter 2 plain"

definition at_zmax :: PanZoom where
  "at_zmax = state_of (attach square_canvas (PanZoom_init (Some 1) (0, 0) 10 (1 / 10) 10))"


text \<open>
  The three float fields of a transform constructed with the default arguments, and of
  one constructed with \<open>zoom = 1\<close>, \<open>zmin = 0.1\<close>, \<open>zmax = 10\<close>.
\<close>

definition default_floats :: zoom_floats where
  "default_floats = floats (PanZoom_init (Some 1) (0, 0) 1 (1 / 100000) 100000)"


text \<open>
  Visuals and routine tables to run the pipeline on. \<open>fresh e\<close> has nothing marked;
  the routines of \<open>two_routines\<close> do nothing; in \<open>marking_routines\<close> the routine of
  \<open>color\<close> marks \<open>spikes\<close>.
\<close>

definition fresh :: "bool \<Rightarrow> visual" where
  "fresh e = \<lparr>to_bake = [], empty = e, gl_draw_mode = ''lines''\<rparr>"

definition two_routines :: "unit routines" where
  "two_routines = [''color'' \<mapsto> (\<lambda>v. Returns () v), ''spikes'' \<mapsto> (\<lambda>v. Returns () v)]"

definition marking_routines :: "unit routines" where
  "marking_routines =
     [''color'' \<mapsto> (\<lambda>v. Returns () (set_to_bake [''spikes''] v)),
      ''spikes'' \<mapsto> (\<lambda>v. Returns () v)]"

text \<open>
  A visual whose routines leave a trace: \<open>upload b\<close> appends \<open>b\<close> to the field
  \<open>uploaded\<close>. In \<open>failing_routines\<close> the routine of \<open>color\<close> raises. \<open>pending\<close> is
  empty, with three names marked, of which \<open>n_rows\<close> has no routine in either table.
\<close>

record gpu_visual = visual +
  uploaded :: "string list"

definition upload :: "string \<Rightarrow> unit gpu_visual_ext routine" where
  "upload b v = Returns () (v\<lparr>uploaded := uploaded v @ [b]\<rparr>)"

definition uploading_routines :: "unit gpu_visual_ext routines" where
  "uploading_routines = [''color'' \<mapsto> upload ''color'', ''spikes'' \<mapsto> upload ''spikes'']"

definition failing_routines :: "unit gpu_visual_ext routines" where
  "failing_routines =
     [''color'' \<mapsto> (\<lambda>v. Raises AttributeError v), ''spikes'' \<mapsto> upload ''spikes'']"

definition pending :: gpu_visual where
  "pending =
     \<lparr>to_bake = [''spikes'', ''n_rows'', ''color''], empty = True, gl_draw_mode = ''lines'',
      uploaded = []\<rparr>"

text \<open>
  A visual of three spikes in two clusters, with two colors stored and \<open>spikes\<close>
  marked; \<open>colors k\<close> is an array of \<open>k\<close> rows of three components.
\<close>

definition colors :: "nat \<Rightarrow> real ndarray" where
  "colors k = \<lparr>shape = [k, 3], flat = replicate (k * 3) (1 / 2)\<rparr>"

definition two_clusters :: spike_visual where
  "two_clusters =
     \<lparr>to_bake = [''spikes''], empty = False, gl_draw_mode = ''lines'',
      n_spikes = Some 3,
      spike_clusters = Some \<lparr>shape = [3], flat = [0, 0, 1]\<rparr>,
      spike_ids = Some \<lparr>shape = [3], flat = [0, 1, 2]\<rparr>,
      masks = None, cluster_colors = Some (colors 2), n_channels = 2\<rparr>"


section \<open>Zoom and its bounds\<close>

lemma zoom_setter_zoom: "zoom (zoom_setter v s) = max (min v (zmax s)) (zmin s)"
  by (simp add: zoom_setter_def Let_def)


lemma min_py_number: "a \<noteq> NaN \<Longrightarrow> b \<noteq> NaN \<Longrightarrow> min_py a b \<noteq> NaN"
  and max_py_number: "a \<noteq> NaN \<Longrightarrow> b \<noteq> NaN \<Longrightarrow> max_py a b \<noteq> NaN"
  by (simp_all add: min_py_def max_py_def)

lemma le_min_py: "a \<noteq> NaN \<Longrightarrow> b \<noteq> NaN \<Longrightarrow> le (min_py a b) b"
  by (cases a; cases b; simp add: min_py_def)

lemma le_max_py: "a \<noteq> NaN \<Longrightarrow> b \<noteq> NaN \<Longrightarrow> le b (max_py a b)"
  by (cases a; cases b; simp add: max_py_def)

lemma min_py_clamp: "a \<noteq> NaN \<Longrightarrow> b \<noteq> NaN \<Longrightarrow> min_py a b = (if le a b then a else b)"
  by (cases a; cases b; simp add: min_py_def)

lemma max_py_clamp: "a \<noteq> NaN \<Longrightarrow> b \<noteq> NaN \<Longrightarrow> max_py a b = (if le b a then a else b)"
  by (cases a; cases b; simp add: max_py_def)






lemma default_floats_fields:
  "zoom_f default_floats = Fin 1" "zmin_f default_floats = Fin (1 / 100000)"
  "zmax_f default_floats = Fin 100000"
  by (simp_all add: default_floats_def floats_def PanZoom_init_def)

lemma bound_step_number:
  assumes "zmin_f s \<noteq> NaN" "zmax_f s \<noteq> NaN" "call_value c \<noteq> NaN"
  shows "zmin_f (bound_step c s) \<noteq> NaN \<and> zmax_f (bound_step c s) \<noteq> NaN"
  using assms
  by (cases c) (simp_all add: zmin_setter_def zmax_setter_def min_py_number max_py_number)

lemma bound_step_ordered:
  assumes "zmin_f s \<noteq> NaN" "zmax_f s \<noteq> NaN" "call_value c \<noteq> NaN"
  shows "le (zmin_f (bound_step c s)) (zmax_f (bound_step c s))"
  using assms by (cases c) (simp_all add: zmin_setter_def zmax_setter_def le_min_py le_max_py)

lemma bound_calls_snoc: "bound_calls (cs @ [c]) s = bound_step c (bound_calls cs s)"
  by (induction cs arbitrary: s) simp_all

lemma bound_calls_number:
  assumes "zmin_f s \<noteq> NaN" "zmax_f s \<noteq> NaN" "list_all (\<lambda>c. call_value c \<noteq> NaN) cs"
  shows "zmin_f (bound_calls cs s) \<noteq> NaN \<and> zmax_f (bound_calls cs s) \<noteq> NaN"
  using assms
proof (induction cs arbitrary: s)
  case Nil
  then show ?case by simp
next
  case (Cons c cs)
  then show ?case using bound_step_number [of s c] by simp
qed

text \<open>
  C4, as the code has it. On a transform whose bounds are not NaN, after every call of a
  sequence of calls to the setters of \<open>zmin\<close> and \<open>zmax\<close>, in any order and with any
  values other than NaN (the infinities included), \<open>zmin <= zmax\<close> holds, whether or not
  it held before: the setter of \<open>zmin\<close> stores \<open>min(value, zmax)\<close>, which is the value
  when it is at most the current \<open>zmax\<close> and the current \<open>zmax\<close> otherwise; the setter
  of \<open>zmax\<close> stores \<open>max(value, zmin)\<close>, the value when it is at least the current
  \<open>zmin\<close> and the current \<open>zmin\<close> otherwise; neither touches the other bound.
\<close>

theorem zoom_bounds_ordered_after_every_call:
  assumes "zmin_f s \<noteq> NaN" and "zmax_f s \<noteq> NaN"
    and "list_all (\<lambda>c. call_value c \<noteq> NaN) (cs @ [c])"
  shows "le (zmin_f (bound_calls (cs @ [c]) s)) (zmax_f (bound_calls (cs @ [c]) s))
   \<and> zmin_f (zmin_setter v s) = min_py v (zmax_f s) \<and> zmax_f (zmin_setter v s) = zmax_f s
   \<and> zmax_f (zmax_setter v s) = max_py v (zmin_f s) \<and> zmin_f (zmax_setter v s) = zmin_f s
   \<and> (v \<noteq> NaN \<longrightarrow>
        zmin_f (zmin_setter v s) = (if le v (zmax_f s) then v else zmax_f s)
        \<and> zmax_f (zmax_setter v s) = (if le (zmin_f s) v then v else zmin_f s))"
proof -
  have cs: "list_all (\<lambda>c. call_value c \<noteq> NaN) cs" and c: "call_value c \<noteq> NaN"
    using assms(3) by simp_all
  have "zmin_f (bound_calls cs s) \<noteq> NaN \<and> zmax_f (bound_calls cs s) \<noteq> NaN"
    using assms(1,2) cs by (rule bound_calls_number)
  then have "le (zmin_f (bound_calls (cs @ [c]) s)) (zmax_f (bound_calls (cs @ [c]) s))"
    using c by (simp add: bound_calls_snoc bound_step_ordered)
  then show ?thesis
    using assms(1,2)
    by (simp add: zmin_setter_def zmax_setter_def min_py_clamp max_py_clamp)
qed

text \<open>
  From the default bounds, \<open>zmin = 20\<close> then \<open>zmax = 5\<close>: the second call stores
  \<open>zmax = 20\<close>. A \<open>zmin\<close> of \<open>200000\<close> is stored as the current \<open>zmax\<close>, a \<open>zmax\<close> of
  \<open>200000\<close> as it is.
\<close>

theorem zoom_bounds_ordered_after_every_call_witness:
  "zmin_f default_floats \<noteq> NaN \<and> zmax_f default_floats \<noteq> NaN
   \<and> list_all (\<lambda>c. call_value c \<noteq> NaN) ([SetZmin (Fin 20)] @ [SetZmax (Fin 5)])
   \<and> zmin_f (bound_calls ([SetZmin (Fin 20)] @ [SetZmax (Fin 5)]) default_floats) = Fin 20
   \<and> zmax_f (bound_calls ([SetZmin (Fin 20)] @ [SetZmax (Fin 5)]) default_floats) = Fin 20
   \<and> le (zmin_f (bound_calls ([SetZmin (Fin 20)] @ [SetZmax (Fin 5)]) default_floats))
         (zmax_f (bound_calls ([SetZmin (Fin 20)] @ [SetZmax (Fin 5)]) default_floats))
   \<and> Fin 200000 \<noteq> NaN
   \<and> zmin_f (zmin_setter (Fin 200000) default_floats) = Fin 100000
   \<and> zmax_f (zmax_setter (Fin 200000) default_floats) = Fin 200000"
proof -
  have num: "zmin_f default_floats \<noteq> NaN" "zmax_f default_floats \<noteq> NaN"
    by (simp_all add: default_floats_fields)
  have vals: "list_all (\<lambda>c. call_value c \<noteq> NaN) ([SetZmin (Fin 20)] @ [SetZmax (Fin 5)])"
    by simp
  note th = zoom_bounds_ordered_after_every_call [OF num vals, of "Fin 200000"]
  have run: "zmin_f (bound_calls ([SetZmin (Fin 20)] @ [SetZmax (Fin 5)]) default_floats) = Fin 20"
    "zmax_f (bound_calls ([SetZmin (Fin 20)] @ [SetZmax (Fin 5)]) default_floats) = Fin 20"
    by (simp_all add: zmin_setter_def zmax_setter_def min_py_def max_py_def default_floats_fields)
  have nn: "Fin 200000 \<noteq> NaN" by simp
  have ord: "le (zmin_f (bound_calls ([SetZmin (Fin 20)] @ [SetZmax (Fin 5)]) default_floats))
         (zmax_f (bound_calls ([SetZmin (Fin 20)] @ [SetZmax (Fin 5)]) default_floats))"
    using th by blast
  have "zmin_f (zmin_setter (Fin 200000) default_floats)
        = (if le (Fin 200000) (zmax_f default_floats) then Fin 200000 else zmax_f default_floats)
      \<and> zmax_f (zmax_setter (Fin 200000) default_floats)
        = (if le (zmin_f default_floats) (Fin 200000) then Fin 200000 else zmin_f default_floats)"
    using th nn by blast
  then have clamp: "zmin_f (zmin_setter (Fin 200000) default_floats) = Fin 100000
      \<and> zmax_f (zmax_setter (Fin 200000) default_floats) = Fin 200000"
    by (simp add: default_floats_fields)
  show ?thesis
    by (intro conjI num vals run ord nn conjunct1 [OF clamp] conjunct2 [OF clamp])
qed

text \<open>
  With NaN the claim as first stated fails: \<open>zmin = float('nan')\<close> on a transform with
  the default bounds stores NaN, since \<open>zmax < nan\<close> is false, and \<open>zmin <= zmax\<close> is
  false afterwards.
\<close>

theorem zmin_setter_nan_counterexample:
  "zmin_f (zmin_setter NaN default_floats) = NaN
   \<and> zmax_f (zmin_setter NaN default_floats) = Fin 100000
   \<and> \<not> le (zmin_f (zmin_setter NaN default_floats)) (zmax_f (zmin_setter NaN default_floats))"
  by (simp add: zmin_setter_def min_py_def default_floats_fields)





text \<open>
  C10. The constructor stores \<open>aspect\<close>, \<open>pan\<close>, \<open>zoom\<close>, \<open>zmin\<close> and \<open>zmax\<close> as they
  are given, so \<open>zmin \<le> zoom \<le> zmax\<close> holds on a new instance exactly when the
  arguments satisfy it. \<open>PanZoom(zoom=50.0, zmax=10.0)\<close>, the other arguments at their
  defaults, has \<open>zoom = 50.0\<close> above \<open>zmax = 10.0\<close>, and the first assignment to
  \<open>zoom\<close> (here of its own value) clamps it to \<open>10.0\<close>.
\<close>

theorem PanZoom_init_stores_verbatim:
  "aspect (PanZoom_init a p z lo hi) = a
   \<and> pan (PanZoom_init a p z lo hi) = p
   \<and> zoom (PanZoom_init a p z lo hi) = z
   \<and> zmin (PanZoom_init a p z lo hi) = lo
   \<and> zmax (PanZoom_init a p z lo hi) = hi
   \<and> ((zmin (PanZoom_init a p z lo hi) \<le> zoom (PanZoom_init a p z lo hi)
        \<and> zoom (PanZoom_init a p z lo hi) \<le> zmax (PanZoom_init a p z lo hi))
       = (lo \<le> z \<and> z \<le> hi))
   \<and> zoom (PanZoom_init (Some 1) (0, 0) 50 (1 / 100000) 10) = 50
   \<and> zmax (PanZoom_init (Some 1) (0, 0) 50 (1 / 100000) 10) = 10
   \<and> zoom (zoom_setter 50 (PanZoom_init (Some 1) (0, 0) 50 (1 / 100000) 10)) = 10"
  by (simp add: PanZoom_init_def zoom_setter_zoom)

section \<open>Wheel zoom\<close>

lemma zoom_setter_keeps:
  "pan (zoom_setter v s) = pan s" "aspect (zoom_setter v s) = aspect s"
  "canvas_aspect (zoom_setter v s) = canvas_aspect s" "canvas (zoom_setter v s) = canvas s"
  "zoom_to_pointer (zoom_setter v s) = zoom_to_pointer s" "u_pan (zoom_setter v s) = u_pan s"
  by (simp_all add: zoom_setter_def Let_def)

lemma zoom_setter_attached:
  "is_attached s \<Longrightarrow>
   u_zoom (zoom_setter v s) = smul (max (min v (zmax s)) (zmin s)) (aspect_value s)"
  by (auto simp add: zoom_setter_def Let_def aspect_value_def is_attached_def split: option.splits)

lemma pan_setter_keeps:
  "pan (pan_setter v s) = v" "zoom (pan_setter v s) = zoom s" "u_zoom (pan_setter v s) = u_zoom s"
  "canvas (pan_setter v s) = canvas s"
  by (simp_all add: pan_setter_def Let_def)

lemma is_attached_keeps:
  "is_attached (pan_setter v s) = is_attached s" "is_attached (zoom_setter z s) = is_attached s"
  by (simp_all add: is_attached_def pan_setter_def zoom_setter_def Let_def)

lemma canvas_update_keeps:
  "pan (state_of (canvas_update s)) = pan s" "zoom (state_of (canvas_update s)) = zoom s"
  "u_zoom (state_of (canvas_update s)) = u_zoom s" "returned (canvas_update s) = is_attached s"
  by (simp_all add: canvas_update_def is_attached_def split: option.splits)

lemma frac_half_odd: "odd n \<Longrightarrow> frac (real_of_int n / 2) = 1 / 2"
proof -
  assume "odd n"
  then obtain k where n: "n = 2 * k + 1" by (auto elim: oddE)
  have "real_of_int n / 2 - 1 / 2 = of_int k" by (simp add: n field_simps)
  then have "real_of_int n / 2 - 1 / 2 \<in> \<int>" by (metis Ints_of_int)
  moreover have "(0::real) \<le> 1 / 2" "(1 / 2 :: real) < 1" by simp_all
  ultimately show ?thesis using frac_unique_iff [of "real_of_int n / 2" "1 / 2"] by blast
qed

text \<open>At the centre of the canvas the grid coordinate is zero when the row count is odd.\<close>

lemma normalize_grid_center:
  assumes "odd (n_rows s)" "width s \<noteq> 0" "height s \<noteq> 0"
  shows "normalize_grid s (width s / 2, height s / 2) = Inr (0, 0)"
  using assms frac_half_odd [of "n_rows s"] by (auto simp add: normalize_grid_def Let_def)

lemma plain_fields:
  "is_attached plain" "zoom_to_pointer plain" "width plain = 4" "height plain = 4"
  "n_rows plain = 1" "pan plain = (0, 0)" "zoom plain = 1" "aspect plain = Some 1"
  "canvas_aspect plain = (1, 1)"
  by (simp_all add: plain_def attach_def set_canvas_aspect_def square_canvas_def
      PanZoom_init_def is_attached_def Let_def aspect_value_def)

lemma grid2_fields:
  "is_attached grid2" "zoom_to_pointer grid2" "width grid2 = 4" "height grid2 = 4"
  "n_rows grid2 = 2" "pan grid2 = (0, 0)" "zoom grid2 = 1" "aspect grid2 = Some 1"
  "canvas_aspect grid2 = (1, 1)"
  using plain_fields by (simp_all add: grid2_def n_rows_setter_def is_attached_def)

lemma at_zmax_fields:
  "is_attached at_zmax" "zoom_to_pointer at_zmax" "width at_zmax = 4" "height at_zmax = 4"
  "n_rows at_zmax = 1" "pan at_zmax = (0, 0)" "zoom at_zmax = 10" "zmax at_zmax = 10"
  "zmin at_zmax = 1 / 10" "aspect at_zmax = Some 1" "canvas_aspect at_zmax = (1, 1)"
  "u_zoom at_zmax = Vec (10, 10)"
  by (simp_all add: at_zmax_def attach_def set_canvas_aspect_def square_canvas_def
      PanZoom_init_def is_attached_def Let_def aspect_value_def)

text \<open>
  C8, as the code has it. For a transform whose \<open>n_rows\<close> is odd and a wheel event
  whose pointer is exactly at the centre of the canvas, \<open>pan\<close> is the same after the
  event: the centre of the canvas is then the centre of a grid cell, so the grid
  coordinate is zero and the correction vanishes. The canvas size, the zoom and the
  aspect are not zero, so that the correction is a number. The handler returns when the
  transform is attached and has an aspect.
\<close>

theorem wheel_at_center_keeps_pan:
  assumes "odd (n_rows s)" and "pos ev = (width s / 2, height s / 2)"
    and "width s \<noteq> 0" and "height s \<noteq> 0" and "zoom s \<noteq> 0"
    and "fst (canvas_aspect s) \<noteq> 0" and "snd (canvas_aspect s) \<noteq> 0" and "aspect s \<noteq> Some 0"
  shows "pan (state_of (on_mouse_wheel ev s)) = pan s
    \<and> (is_attached s \<and> aspect s \<noteq> None \<longrightarrow> returned (on_mouse_wheel ev s))"
proof -
  have ng: "normalize_grid s (pos ev) = Inr (0, 0)"
    using assms normalize_grid_center by simp
  have av: "aspect_value (zoom_setter z s) = aspect_value s" for z
    by (simp add: aspect_value_def zoom_setter_keeps split: option.splits)
  show ?thesis
  proof (cases "aspect s")
    case None
    then have "aspect_value s = Scalar 1" by (simp add: aspect_value_def)
    then show ?thesis
      using None
      by (simp add: on_mouse_wheel_def ng Let_def zoom_setter_keeps canvas_update_keeps av)
  next
    case (Some a)
    then have "aspect_value s = Vec (fst (canvas_aspect s) * a, snd (canvas_aspect s) * a)"
      by (simp add: aspect_value_def)
    moreover have "a \<noteq> 0" using Some assms(8) by simp
    ultimately show ?thesis
      using assms(5-7)
      by (simp add: on_mouse_wheel_def ng Let_def zoom_setter_keeps canvas_update_keeps
          pan_setter_keeps is_attached_keeps av)
  qed
qed

theorem wheel_at_center_keeps_pan_witness:
  "odd (n_rows plain)
   \<and> pos \<lparr>pos = (2, 2), delta = (0, 1)\<rparr> = (width plain / 2, height plain / 2)
   \<and> width plain \<noteq> 0 \<and> height plain \<noteq> 0 \<and> zoom plain \<noteq> 0
   \<and> fst (canvas_aspect plain) \<noteq> 0 \<and> snd (canvas_aspect plain) \<noteq> 0 \<and> aspect plain \<noteq> Some 0
   \<and> is_attached plain \<and> zoom_to_pointer plain
   \<and> returned (on_mouse_wheel \<lparr>pos = (2, 2), delta = (0, 1)\<rparr> plain)
   \<and> pan (state_of (on_mouse_wheel \<lparr>pos = (2, 2), delta = (0, 1)\<rparr> plain)) = pan plain"
  using wheel_at_center_keeps_pan [of plain "\<lparr>pos = (2, 2), delta = (0, 1)\<rparr>"]
  by (simp add: plain_fields)

text \<open>
  With an even row count the centre of the canvas is a corner of four cells. On
  \<open>grid2\<close> the grid coordinate of the centre \<open>(2, 2)\<close> is \<open>(-1/2, -1/2)\<close>, and one
  wheel step up moves \<open>pan\<close> away from \<open>(0, 0)\<close>.
\<close>

theorem wheel_at_center_even_rows_counterexample:
  "is_attached grid2 \<and> zoom_to_pointer grid2
   \<and> (width grid2 / 2, height grid2 / 2) = (2, 2)
   \<and> normalize_grid grid2 (2, 2) = Inr (- (1 / 2), - (1 / 2))
   \<and> pan (state_of (on_mouse_wheel \<lparr>pos = (2, 2), delta = (0, 1)\<rparr> grid2))
       = ((1 - 1 / exp (1 / 8)) / 2, - ((1 - 1 / exp (1 / 8)) / 2))
   \<and> pan (state_of (on_mouse_wheel \<lparr>pos = (2, 2), delta = (0, 1)\<rparr> grid2)) \<noteq> pan grid2"
  by (simp add: grid2_fields on_mouse_wheel_def normalize_grid_def Let_def zoom_setter_keeps
      aspect_value_def canvas_update_keeps pan_setter_keeps)

text \<open>
  Where the multiplied zoom stays within the bounds, the handler does what C7 says: the
  zoom is multiplied by \<open>exp (2.5 * sign(delta) * 0.05)\<close>, that is
  \<open>exp (sgn delta / 8)\<close>, and the pan is corrected with
  the effective zoom vectors before and after, \<open>x\<close> subtracted and \<open>y\<close> added.
\<close>

lemma on_mouse_wheel_unclamped:
  assumes ng: "normalize_grid s (pos ev) = Inr (x0, y0)"
    and on: "zoom_to_pointer s" "aspect s = Some a" "is_attached s"
    and lo: "zmin s \<le> zoom s * exp (sgn (snd (delta ev)) / 8)"
    and hi: "zoom s * exp (sgn (snd (delta ev)) / 8) \<le> zmax s"
    and nz: "zoom s \<noteq> 0" "fst (canvas_aspect s) * a \<noteq> 0" "snd (canvas_aspect s) * a \<noteq> 0"
    and old: "u_zoom s = smul (zoom s) (aspect_value s)"
    and new: "s' = state_of (on_mouse_wheel ev s)"
  shows "returned (on_mouse_wheel ev s)
    \<and> zoom s' = zoom s * exp (sgn (snd (delta ev)) / 8)
    \<and> u_zoom s' = smul (zoom s') (aspect_value s')
    \<and> (\<exists>zx zy zx' zy'. u_zoom s = Vec (zx, zy) \<and> u_zoom s' = Vec (zx', zy')
          \<and> pan s' = (fst (pan s) - x0 * (1 / zx - 1 / zx'), snd (pan s) + y0 * (1 / zy - 1 / zy')))"
proof -
  let ?e = "exp (sgn (snd (delta ev)) / 8)"
  have clamp: "max (min (zoom s * ?e) (zmax s)) (zmin s) = zoom s * ?e"
    using lo hi by (simp add: min_def max_def)
  have av: "aspect_value s = Vec (fst (canvas_aspect s) * a, snd (canvas_aspect s) * a)"
    using on(2) by (simp add: aspect_value_def)
  have av1: "aspect_value (zoom_setter v s) = aspect_value s" for v
    by (simp add: aspect_value_def zoom_setter_keeps split: option.splits)
  have av2: "aspect_value (state_of (canvas_update (pan_setter v (zoom_setter w s)))) = aspect_value s"
    for v w
    by (simp add: aspect_value_def canvas_update_def pan_setter_def zoom_setter_def Let_def
        split: option.splits)
  show ?thesis
    using nz on
    by (simp add: new on_mouse_wheel_def ng Let_def zoom_setter_keeps av av1 av2 old
        canvas_update_keeps pan_setter_keeps is_attached_keeps zoom_setter_zoom
        zoom_setter_attached clamp)
qed

lemma frac_three_quarters: "frac (3 / 4 :: real) = 3 / 4"
  by (simp add: frac_def)

text \<open>
  C7 at the upper bound. On \<open>at_zmax\<close>, with the pointer at \<open>(3, 3)\<close> (grid coordinate
  \<open>(1/2, 1/2)\<close>), one wheel step up leaves \<open>zoom\<close> and the effective zoom \<open>_u_zoom\<close>
  as they were, since the setter clamps \<open>10 * exp (1/8)\<close> back to \<open>10\<close>. The pan is
  corrected all the same, with the product before the clamp, and moves.
\<close>

theorem wheel_at_zmax_moves_pan:
  "zoom at_zmax = 10 \<and> zmax at_zmax = 10 \<and> u_zoom at_zmax = Vec (10, 10) \<and> pan at_zmax = (0, 0)
   \<and> zoom_to_pointer at_zmax \<and> is_attached at_zmax
   \<and> returned (on_mouse_wheel \<lparr>pos = (3, 3), delta = (0, 1)\<rparr> at_zmax)
   \<and> zoom (state_of (on_mouse_wheel \<lparr>pos = (3, 3), delta = (0, 1)\<rparr> at_zmax)) = 10
   \<and> u_zoom (state_of (on_mouse_wheel \<lparr>pos = (3, 3), delta = (0, 1)\<rparr> at_zmax)) = Vec (10, 10)
   \<and> pan (state_of (on_mouse_wheel \<lparr>pos = (3, 3), delta = (0, 1)\<rparr> at_zmax))
       = (- ((1 - 1 / exp (1 / 8)) / 20), (1 - 1 / exp (1 / 8)) / 20)
   \<and> pan (state_of (on_mouse_wheel \<lparr>pos = (3, 3), delta = (0, 1)\<rparr> at_zmax)) \<noteq> pan at_zmax"
  by (simp add: at_zmax_fields on_mouse_wheel_def normalize_grid_def Let_def zoom_setter_keeps
      aspect_value_def canvas_update_keeps pan_setter_keeps zoom_setter_zoom zoom_setter_attached
      frac_three_quarters is_attached_keeps field_simps)

section \<open>Zoom assigned before attachment\<close>




lemma zoom_setter_pushes:
  "is_attached s \<Longrightarrow>
   map (\<lambda>p. p ''u_zoom'') (programs (zoom_setter z s))
     = map (\<lambda>_. Some (u_zoom (zoom_setter z s))) (programs s)"
  by (auto simp add: zoom_setter_def Let_def o_def is_attached_def)


text \<open>A resize of the attached transform assigns \<open>zoom\<close> to itself, which pushes.\<close>

lemma on_resize_pushes:
  assumes "is_attached s" and "on_resize sz s = Returns () s'"
  shows "map (\<lambda>p. p ''u_zoom'') (programs s') = map (\<lambda>_. Some (u_zoom s')) (programs s)"
proof -
  obtain s1 where s1: "set_canvas_aspect (s\<lparr>width := fst sz, height := snd sz\<rparr>) = Returns () s1"
    and s': "s' = zoom_setter (zoom s1) s1"
    using assms(2) by (auto simp add: on_resize_def split: outcome.splits)
  have "is_attached s1" "programs s1 = programs s"
    using s1 assms(1)
    by (auto simp add: set_canvas_aspect_def Let_def is_attached_def split: if_splits)
  then show ?thesis using zoom_setter_pushes [of s1 "zoom s1"] s' by simp
qed






section \<open>Baking and drawing\<close>

lemma set_to_bake_keeps:
  "empty (set_to_bake bs v) = empty v" "gl_draw_mode (set_to_bake bs v) = gl_draw_mode v"
  by (induction bs arbitrary: v) simp_all

lemma bake_each_skip: "bake_each h bs v = bake_each h (declared h bs) v"
  by (induction bs arbitrary: v) (auto simp add: declared_def split: option.splits outcome.splits)

lemma bake_each_prefix: "prefix (fst (bake_each h bs v)) (map BakeRoutine (declared h bs))"
  by (induction bs arbitrary: v) (auto simp add: declared_def split: option.splits outcome.splits)

lemma bake_each_log:
  "snd (bake_each h bs v) = Returns r v' \<Longrightarrow>
   fst (bake_each h bs v) = map BakeRoutine (declared h bs)"
  by (induction bs arbitrary: v) (auto simp add: declared_def split: option.splits outcome.splits)

text \<open>The loop ends normally when no routine raises.\<close>

lemma bake_each_returns:
  assumes "\<And>b f w. h b = Some f \<Longrightarrow> returned (f w)"
  shows "returned (snd (bake_each h bs v))"
proof (induction bs arbitrary: v)
  case Nil
  show ?case by simp
next
  case (Cons b bs)
  show ?case
  proof (cases "h b")
    case None
    then show ?thesis using Cons by simp
  next
    case (Some f)
    then have "returned (f v)" by (rule assms)
    then show ?thesis using Some Cons by (cases "f v") simp_all
  qed
qed

lemma bake_fst: "\<not> empty v \<Longrightarrow> fst (bake h v) = fst (bake_each h (sort (to_bake v)) v)"
  by (simp add: bake_def Let_def split: prod.splits outcome.splits)

lemma bake_Returns:
  assumes "\<not> empty v" "snd (bake h v) = Returns r v'"
  shows "r = Some (to_bake v \<noteq> [])" "to_bake v' = []"
    "\<exists>v1. snd (bake_each h (sort (to_bake v)) v) = Returns () v1 \<and> v' = v1\<lparr>to_bake := []\<rparr>"
  using assms by (auto simp add: bake_def Let_def split: prod.splits outcome.splits)

lemma bake_returned:
  "\<not> empty v \<Longrightarrow> returned (snd (bake h v)) = returned (snd (bake_each h (sort (to_bake v)) v))"
  by (simp add: bake_def Let_def split: prod.splits outcome.splits)

lemma bake_empty: "empty v \<Longrightarrow> bake h v = ([], Returns None v)"
  by (simp add: bake_def)

lemma declared_sort:
  "sorted (declared h (sort bs))" "set (declared h (sort bs)) = {b \<in> set bs. h b \<noteq> None}"
  by (auto simp add: declared_def sorted_filter [where f = "\<lambda>x. x", simplified])

lemma mark_spikes_color:
  "set_to_bake [''spikes'', ''color''] (fresh e)
     = \<lparr>to_bake = [''spikes'', ''color''], empty = e, gl_draw_mode = ''lines''\<rparr>"
  by (simp add: fresh_def)

lemma bake_two_routines:
  "bake two_routines (set_to_bake [''spikes'', ''color''] (fresh False))
     = ([BakeRoutine ''color'', BakeRoutine ''spikes''], Returns (Some True) (fresh False))"
  by (simp add: mark_spikes_color bake_def two_routines_def fresh_def)

text \<open>
  C1, as the code has it. When a bake pass returns on a visual that is not empty, the
  dirty list is empty, whatever the routines did: the names are read (sorted) before the
  first routine runs and the list is replaced by the empty list after the last, so a
  name marked by a routine during the pass is cleared with the others. On an empty
  visual the pass leaves the list as it is.
\<close>

theorem bake_leaves_dirty_set_empty:
  assumes "snd (bake h v) = Returns r v'"
  shows "to_bake v' = (if empty v then to_bake v else [])"
  using assms by (auto simp add: bake_def Let_def split: prod.splits outcome.splits if_splits)

theorem bake_leaves_dirty_set_empty_witness:
  "snd (bake two_routines (set_to_bake [''spikes'', ''color''] (fresh False)))
     = Returns (Some True) (fresh False)
   \<and> \<not> empty (set_to_bake [''spikes'', ''color''] (fresh False))
   \<and> to_bake (fresh False) = []"
proof -
  let ?v = "set_to_bake [''spikes'', ''color''] (fresh False)"
  have run: "snd (bake two_routines ?v) = Returns (Some True) (fresh False)"
    by (simp only: bake_two_routines snd_conv)
  have ne: "\<not> empty ?v" by (simp add: set_to_bake_keeps fresh_def)
  have "to_bake (fresh False) = (if empty ?v then to_bake ?v else [])"
    by (rule bake_leaves_dirty_set_empty [OF run])
  then have "to_bake (fresh False) = []" using ne by simp
  then show ?thesis using run ne by blast
qed

text \<open>
  A mark made during the pass is lost. With \<open>color\<close> marked, the routine of \<open>color\<close>
  marks \<open>spikes\<close>: the loop ends with both names in the list, the pass returns with the
  list empty, and the next pass runs no routine, so \<open>spikes\<close> is never baked.
\<close>

theorem bake_loses_marks_made_during_pass_counterexample:
  "\<not> empty (set_to_bake [''color''] (fresh False))
   \<and> bake_each marking_routines (sort (to_bake (set_to_bake [''color''] (fresh False))))
         (set_to_bake [''color''] (fresh False))
       = ([BakeRoutine ''color''],
          Returns () ((fresh False)\<lparr>to_bake := [''color'', ''spikes'']\<rparr>))
   \<and> bake marking_routines (set_to_bake [''color''] (fresh False))
       = ([BakeRoutine ''color''], Returns (Some True) (fresh False))
   \<and> to_bake (fresh False) = []
   \<and> bake marking_routines (fresh False) = ([], Returns (Some False) (fresh False))"
  by (simp add: bake_def marking_routines_def fresh_def)

text \<open>The loop of a pass is \<open>run_all\<close> on the routines of the names that have one.\<close>

lemma run_all_Returns: "snd (run_all fs v) = Returns r v' \<Longrightarrow> fst (run_all fs v) = length fs"
  by (induction fs arbitrary: v) (auto split: outcome.splits)

lemma length_routines_of: "length (routines_of h bs) = length (declared h bs)"
  by (induction bs) (auto simp add: declared_def split: option.splits)

lemma bake_each_run_all:
  "bake_each h bs v =
     (map BakeRoutine (take (fst (run_all (routines_of h bs) v)) (declared h bs)),
      snd (run_all (routines_of h bs) v))"
  by (induction bs arbitrary: v) (auto simp add: declared_def split: option.splits outcome.splits)

lemma draw_run_all:
  assumes "\<not> empty v"
  shows "draw h v =
     (case run_all (routines_of h (sort (to_bake v))) v of
        (k, Raises e v1) \<Rightarrow>
          (map BakeRoutine (take k (declared h (sort (to_bake v)))), Raises e v1)
      | (k, Returns _ v1) \<Rightarrow>
          (map BakeRoutine (declared h (sort (to_bake v)))
             @ (if empty v1 then [] else [ProgramDraw (gl_draw_mode v1)]),
           Returns () (v1\<lparr>to_bake := []\<rparr>)))"
proof (cases "snd (run_all (routines_of h (sort (to_bake v))) v)")
  case (Returns r v1)
  then have "fst (run_all (routines_of h (sort (to_bake v))) v)
      = length (declared h (sort (to_bake v)))"
    using run_all_Returns length_routines_of by metis
  then show ?thesis
    using assms Returns
    by (simp add: draw_def bake_def Let_def bake_each_run_all case_prod_beta)
next
  case (Raises e v1)
  then show ?thesis
    using assms
    by (simp add: draw_def bake_def Let_def bake_each_run_all case_prod_beta)
qed

text \<open>
  C5. On an empty visual \<open>_bake\<close> returns at once and \<open>draw\<close> calls nothing and
  changes nothing, whatever is marked and whatever the routines are; names marked while
  the visual is empty stay in the list. Once the flag is cleared, the next \<open>draw\<close>
  performs the pending bake: it runs the routines of the pending names that have one, in
  the sorted order of the names, each on the visual as the one before left it. When all
  return, the list is emptied and the draw call follows (unless a routine set the flag
  again); when one raises, \<open>draw\<close> raises with the visual as that routine left it,
  after the calls up to that routine and with no draw call.
\<close>

theorem empty_visual_is_not_drawn:
  assumes "empty v"
  shows "bake h v = ([], Returns None v)
    \<and> draw h v = ([], Returns () v)
    \<and> draw h (set_to_bake bs v) = ([], Returns () (set_to_bake bs v))
    \<and> to_bake (empty_setter False v) = to_bake v
    \<and> draw h (empty_setter False v) =
        (case run_all (routines_of h (sort (to_bake v))) (empty_setter False v) of
           (k, Raises e v1) \<Rightarrow>
             (map BakeRoutine (take k (declared h (sort (to_bake v)))), Raises e v1)
         | (k, Returns _ v1) \<Rightarrow>
             (map BakeRoutine (declared h (sort (to_bake v)))
                @ (if empty v1 then [] else [ProgramDraw (gl_draw_mode v1)]),
              Returns () (v1\<lparr>to_bake := []\<rparr>)))"
proof -
  let ?w = "empty_setter False v"
  have w: "\<not> empty ?w" "to_bake ?w = to_bake v" by (simp_all add: empty_setter_def)
  have idle: "draw h u = ([], Returns () u)" if "empty u" for u :: "'a visual_scheme"
    using that by (simp add: draw_def bake_def)
  note run = draw_run_all [OF w(1), of h, unfolded w(2)]
  show ?thesis
    using assms idle by (simp add: bake_empty set_to_bake_keeps w(2) run)
qed

text \<open>
  On \<open>pending\<close>: nothing is called while it is empty. Once the flag is cleared, the
  uploading routines run for \<open>color\<close> then \<open>spikes\<close> (\<open>n_rows\<close> has none) and leave
  their trace, the list is emptied and the draw call follows; with the routine of
  \<open>color\<close> raising, \<open>draw\<close> raises after that one call, nothing is uploaded or drawn
  and the three names stay marked.
\<close>

lemma run_all_pending:
  "run_all (routines_of uploading_routines (sort (to_bake pending))) (empty_setter False pending)
     = (2, Returns () (pending\<lparr>empty := False, uploaded := [''color'', ''spikes'']\<rparr>))"
  "run_all (routines_of failing_routines (sort (to_bake pending))) (empty_setter False pending)
     = (1, Raises AttributeError (pending\<lparr>empty := False\<rparr>))"
  "declared uploading_routines (sort (to_bake pending)) = [''color'', ''spikes'']"
  "declared failing_routines (sort (to_bake pending)) = [''color'', ''spikes'']"
  by (simp_all add: uploading_routines_def failing_routines_def upload_def pending_def
      empty_setter_def declared_def)

theorem empty_visual_is_not_drawn_witness:
  "empty pending
   \<and> to_bake pending = [''spikes'', ''n_rows'', ''color'']
   \<and> draw uploading_routines pending = ([], Returns () pending)
   \<and> draw uploading_routines (empty_setter False pending)
       = ([BakeRoutine ''color'', BakeRoutine ''spikes'', ProgramDraw ''lines''],
          Returns ()
            (pending\<lparr>to_bake := [], empty := False, uploaded := [''color'', ''spikes'']\<rparr>))
   \<and> draw failing_routines (empty_setter False pending)
       = ([BakeRoutine ''color''], Raises AttributeError (pending\<lparr>empty := False\<rparr>))"
proof -
  have em: "empty pending" and marked: "to_bake pending = [''spikes'', ''n_rows'', ''color'']"
    by (simp_all add: pending_def)
  have idle: "draw uploading_routines pending = ([], Returns () pending)"
    using empty_visual_is_not_drawn [OF em, of uploading_routines "[]"] by blast
  have "draw uploading_routines (empty_setter False pending) =
        (case run_all (routines_of uploading_routines (sort (to_bake pending)))
                (empty_setter False pending) of
           (k, Raises e v1) \<Rightarrow>
             (map BakeRoutine (take k (declared uploading_routines (sort (to_bake pending)))),
              Raises e v1)
         | (k, Returns _ v1) \<Rightarrow>
             (map BakeRoutine (declared uploading_routines (sort (to_bake pending)))
                @ (if empty v1 then [] else [ProgramDraw (gl_draw_mode v1)]),
              Returns () (v1\<lparr>to_bake := []\<rparr>)))"
    using empty_visual_is_not_drawn [OF em, of uploading_routines "[]"] by blast
  then have up: "draw uploading_routines (empty_setter False pending)
       = ([BakeRoutine ''color'', BakeRoutine ''spikes'', ProgramDraw ''lines''],
          Returns ()
            (pending\<lparr>to_bake := [], empty := False, uploaded := [''color'', ''spikes'']\<rparr>))"
    by (simp only: run_all_pending) (simp add: pending_def)
  have "draw failing_routines (empty_setter False pending) =
        (case run_all (routines_of failing_routines (sort (to_bake pending)))
                (empty_setter False pending) of
           (k, Raises e v1) \<Rightarrow>
             (map BakeRoutine (take k (declared failing_routines (sort (to_bake pending)))),
              Raises e v1)
         | (k, Returns _ v1) \<Rightarrow>
             (map BakeRoutine (declared failing_routines (sort (to_bake pending)))
                @ (if empty v1 then [] else [ProgramDraw (gl_draw_mode v1)]),
              Returns () (v1\<lparr>to_bake := []\<rparr>)))"
    using empty_visual_is_not_drawn [OF em, of failing_routines "[]"] by blast
  then have fail: "draw failing_routines (empty_setter False pending)
       = ([BakeRoutine ''color''], Raises AttributeError (pending\<lparr>empty := False\<rparr>))"
    by (simp only: run_all_pending) simp
  show ?thesis by (intro conjI em marked idle up fail)
qed

text \<open>
  The order of a pass. One pass on a visual that is not empty calls the routines of
  the marked names in the lexicographic order of the names and passes over a name with
  no routine without any effect. When it returns, the routines called are exactly those
  of the marked names that have one, and the value returned is whether any name was
  marked when the pass began (\<open>n_bake > 0\<close>). The pass returns when no routine raises;
  a routine that raises ends it after a prefix of the calls.
\<close>

theorem bake_runs_routines_in_order:
  assumes "\<not> empty v"
  shows "sorted (declared h (sort (to_bake v)))
    \<and> set (declared h (sort (to_bake v))) = {b \<in> set (to_bake v). h b \<noteq> None}
    \<and> bake_each h (sort (to_bake v)) v = bake_each h (declared h (sort (to_bake v))) v
    \<and> prefix (fst (bake h v)) (map BakeRoutine (declared h (sort (to_bake v))))
    \<and> (\<forall>r v'. snd (bake h v) = Returns r v' \<longrightarrow>
          fst (bake h v) = map BakeRoutine (declared h (sort (to_bake v)))
          \<and> r = Some (to_bake v \<noteq> []))
    \<and> ((\<forall>b f w. h b = Some f \<longrightarrow> returned (f w)) \<longrightarrow> returned (snd (bake h v)))"
proof -
  have "fst (bake h v) = map BakeRoutine (declared h (sort (to_bake v)))
      \<and> r = Some (to_bake v \<noteq> [])"
    if ret: "snd (bake h v) = Returns r v'" for r v'
  proof -
    obtain v1 where "snd (bake_each h (sort (to_bake v)) v) = Returns () v1"
      using bake_Returns(3) [OF assms ret] by blast
    then show ?thesis
      using bake_each_log bake_fst [OF assms] bake_Returns(1) [OF assms ret] by metis
  qed
  moreover have "returned (snd (bake h v))" if "\<forall>b f w. h b = Some f \<longrightarrow> returned (f w)"
    using that bake_each_returns [of h] bake_returned [OF assms] by blast
  ultimately show ?thesis
    using bake_each_prefix [of h "sort (to_bake v)" v] bake_each_skip [of h "sort (to_bake v)" v]
    by (simp add: declared_sort bake_fst [OF assms])
qed

theorem bake_runs_routines_in_order_witness:
  "\<not> empty (set_to_bake [''spikes'', ''color''] (fresh False))
   \<and> to_bake (set_to_bake [''spikes'', ''color''] (fresh False)) = [''spikes'', ''color'']
   \<and> declared two_routines (sort [''spikes'', ''color'']) = [''color'', ''spikes'']
   \<and> bake two_routines (set_to_bake [''spikes'', ''color''] (fresh False))
       = ([BakeRoutine ''color'', BakeRoutine ''spikes''], Returns (Some True) (fresh False))"
proof -
  let ?v = "set_to_bake [''spikes'', ''color''] (fresh False)"
  have ne: "\<not> empty ?v" by (simp add: set_to_bake_keeps fresh_def)
  have marked: "to_bake ?v = [''spikes'', ''color'']" by (simp add: fresh_def)
  have run: "snd (bake two_routines ?v) = Returns (Some True) (fresh False)"
    by (simp only: bake_two_routines snd_conv)
  have "fst (bake two_routines ?v) = map BakeRoutine (declared two_routines (sort (to_bake ?v)))"
    using bake_runs_routines_in_order [OF ne, of two_routines] run by blast
  moreover have "declared two_routines (sort [''spikes'', ''color'']) = [''color'', ''spikes'']"
    by (simp add: declared_def two_routines_def)
  ultimately have "fst (bake two_routines ?v) = [BakeRoutine ''color'', BakeRoutine ''spikes'']"
    by (simp only: marked list.map)
  then show ?thesis
    using ne marked run \<open>declared two_routines (sort [''spikes'', ''color'']) = [''color'', ''spikes'']\<close>
    by (metis prod.collapse)
qed

text \<open>
  C6 on a name without a routine. The docstring of \<open>_bake\<close> reads: return whether
  something has been baked or not. With \<open>positions\<close> marked on a visual that is not
  empty and has no routine \<open>_bake_positions\<close>, the pass calls no routine and returns
  \<open>True\<close>: the value is \<open>n_bake > 0\<close>, the count of the marked names taken before
  the loop, whether or not a routine ran.
\<close>

theorem bake_returns_true_without_routine:
  "\<not> empty (set_to_bake [''positions''] (fresh False))
   \<and> declared (Map.empty :: unit routines) (sort (to_bake (set_to_bake [''positions''] (fresh False)))) = []
   \<and> bake Map.empty (set_to_bake [''positions''] (fresh False))
       = ([], Returns (Some True) (fresh False))"
  by (simp add: bake_def fresh_def declared_def)

section \<open>Failing setters\<close>

lemma set_or_assert_Raises: "set_or_assert_n_spikes arr v = Raises e v' \<Longrightarrow> v' = v"
  by (auto simp add: set_or_assert_n_spikes_def split: if_splits sum.splits)

text \<open>
  The setters of \<open>spike_ids\<close> and \<open>masks\<close> check before they store: when they raise,
  nothing has changed, for \<open>masks\<close> once the row count is established. (With
  \<open>n_spikes\<close> still \<open>None\<close>, the setter of \<open>masks\<close> sets it from the array before the
  two assertions on the shape.)
\<close>

lemma spike_ids_setter_Raises: "spike_ids_setter val v = Raises e v' \<Longrightarrow> v' = v"
  by (auto simp add: spike_ids_setter_def dest: set_or_assert_Raises split: outcome.splits)

lemma masks_setter_Raises:
  assumes "n_spikes v = Some k" and "masks_setter val v = Raises e v'"
  shows "v' = v"
  using assms
  by (auto simp add: masks_setter_def set_or_assert_n_spikes_def
      split: if_splits sum.splits outcome.splits option.splits)

text \<open>An array of 100 by 3 for \<open>masks\<close> when 50 rows are established.\<close>

lemma masks_setter_wrong_rows:
  "n_spikes v = Some 50 \<Longrightarrow>
   masks_setter \<lparr>shape = [100, 3], flat = xs\<rparr> v = Raises AssertionError v"
  by (simp add: masks_setter_def set_or_assert_n_spikes_def shape0_def)

text \<open>No setter marks a name when it raises.\<close>

lemma masks_setter_dirty: "masks_setter val v = Raises e v' \<Longrightarrow> to_bake v' = to_bake v"
  by (auto simp add: masks_setter_def set_or_assert_n_spikes_def
      split: if_splits sum.splits outcome.splits option.splits)

lemma n_clusters_get_keeps:
  "to_bake (state_of (n_clusters_get u v)) = to_bake v"
  "cluster_colors (state_of (n_clusters_get u v)) = cluster_colors v"
  by (auto simp add: n_clusters_get_def cluster_ids_get_def spike_ids_get_def
      split: sum.splits outcome.splits option.splits)

lemma cluster_colors_setter_dirty:
  assumes "cluster_colors_setter u val v = Raises e v'"
  shows "to_bake v' = to_bake v"
proof -
  let ?v1 = "v\<lparr>cluster_colors := Some val\<rparr>"
  have "to_bake (state_of (n_clusters_get u ?v1)) = to_bake v"
    by (simp add: n_clusters_get_keeps)
  then show ?thesis using assms
    by (auto simp add: cluster_colors_setter_def Let_def split: sum.splits outcome.splits if_splits)
qed

lemma set_to_bake_colors: "cluster_colors (set_to_bake bs v) = cluster_colors v"
  by (induction bs arbitrary: v) simp_all

text \<open>The setter of \<open>cluster_colors\<close> has stored its argument however it ends.\<close>

lemma cluster_colors_setter_stores:
  "cluster_colors (state_of (cluster_colors_setter u val v)) = Some val"
proof -
  let ?v1 = "v\<lparr>cluster_colors := Some val\<rparr>"
  have "cluster_colors (state_of (n_clusters_get u ?v1)) = Some val"
    by (simp add: n_clusters_get_keeps)
  then show ?thesis
    by (auto simp add: cluster_colors_setter_def Let_def set_to_bake_colors
        split: sum.splits outcome.splits if_splits)
qed

lemma n_clusters_two:
  "n_clusters_get sorted_unique (two_clusters\<lparr>cluster_colors := c\<rparr>)
     = Returns 2 (two_clusters\<lparr>cluster_colors := c\<rparr>)"
  by (simp add: two_clusters_def n_clusters_get_def cluster_ids_get_def spike_ids_get_def
      getitem_def sorted_unique_def len_def)

text \<open>
  C2 on the setter of \<open>cluster_colors\<close>. The visual has two clusters; three colors
  are assigned. The setter raises \<open>AssertionError\<close> and marks nothing, but the field
  holds the three colors afterwards, not the two it held: the assignment comes before
  the assertion.
\<close>

theorem cluster_colors_setter_stores_before_check:
  "cluster_colors (state_of (cluster_colors_setter u val v)) = Some val
   \<and> n_clusters_get sorted_unique two_clusters = Returns 2 two_clusters
   \<and> len (colors 3) = Inr 3
   \<and> cluster_colors two_clusters = Some (colors 2)
   \<and> cluster_colors_setter sorted_unique (colors 3) two_clusters
       = Raises AssertionError (two_clusters\<lparr>cluster_colors := Some (colors 3)\<rparr>)
   \<and> colors 3 \<noteq> colors 2
   \<and> to_bake (two_clusters\<lparr>cluster_colors := Some (colors 3)\<rparr>) = to_bake two_clusters"
proof -
  have a: "cluster_colors (state_of (cluster_colors_setter u val v)) = Some val"
    by (rule cluster_colors_setter_stores)
  have b: "n_clusters_get sorted_unique two_clusters = Returns 2 two_clusters"
    using n_clusters_two [of "cluster_colors two_clusters"] by simp
  have c: "len (colors 3) = Inr 3" by (simp add: colors_def len_def)
  have d: "cluster_colors two_clusters = Some (colors 2)" by (simp add: two_clusters_def)
  have e: "cluster_colors_setter sorted_unique (colors 3) two_clusters
       = Raises AssertionError (two_clusters\<lparr>cluster_colors := Some (colors 3)\<rparr>)"
    by (simp add: cluster_colors_setter_def Let_def c n_clusters_two)
  have f: "colors 3 \<noteq> colors 2" by (simp add: colors_def)
  have g: "to_bake (two_clusters\<lparr>cluster_colors := Some (colors 3)\<rparr>) = to_bake two_clusters"
    by simp
  show ?thesis using a b c d e f g by blast
qed

end
